theory Spec2Isabelle
  imports Main "HOL-Library.Sublist" "HOL-Library.AList"
begin

section \<open>JSON content\<close>

text \<open>
  The type \<open>JSONContent\<close> of the editor: an object with an optional \<open>type\<close>, optional
  \<open>attrs\<close>, optional \<open>marks\<close> and optional \<open>content\<close>. An absent property is \<open>None\<close>.
  Attribute values are never inspected by the code below; only the own keys of an
  \<open>attrs\<close> object are read, in the order in which \<open>Object.keys\<close> enumerates them, so an
  \<open>attrs\<close> object is the list of its entries in that order.
\<close>

datatype JSONValue = JNull | JBool bool | JNumber int | JString string

type_synonym attrs = "(string \<times> JSONValue) list"

definition Object_keys :: "attrs \<Rightarrow> string list" where
  "Object_keys obj = map fst obj"

text \<open>A mark is written either as a bare string or as an object with a \<open>type\<close>.\<close>

datatype MarkJSON = MarkString string | MarkObject string "attrs option"

datatype JSONContent =
  JSONContent (json_type: "string option") (json_attrs: "attrs option")
    (json_marks: "MarkJSON list option") (json_content: "JSONContent list option")

text \<open>\<open>typeof mark === 'string' ? mark : mark.type\<close>\<close>

fun mark_name :: "MarkJSON \<Rightarrow> string" where
  "mark_name (MarkString s) = s"
| "mark_name (MarkObject t a) = t"

text \<open>\<open>mark.attrs || {}\<close>: a string has no \<open>attrs\<close> property.\<close>

fun mark_attrs :: "MarkJSON \<Rightarrow> attrs" where
  "mark_attrs (MarkString s) = []"
| "mark_attrs (MarkObject t None) = []"
| "mark_attrs (MarkObject t (Some a)) = a"

text \<open>
  The template literal \<open>`${index}`\<close>: the decimal digits of an array index.
\<close>

definition digit_char :: "nat \<Rightarrow> char" where
  "digit_char d = ''0123456789'' ! d"

fun string_of_index :: "nat \<Rightarrow> string" where
  "string_of_index n =
     (if n < 10 then [digit_char n]
      else string_of_index (n div 10) @ [digit_char (n mod 10)])"

declare string_of_index.simps [simp del]

text \<open>Reading a decimal string back, the inverse of \<open>string_of_index\<close>.\<close>

definition index_of_string :: "string \<Rightarrow> nat" where
  "index_of_string s = foldl (\<lambda>a c. 10 * a + (of_char c - 48)) 0 s"

text \<open>
  The schema of the document model, as far as the validators read it: the keys of
  \<open>schema.marks\<close> and of \<open>schema.nodes\<close>.
\<close>

record Schema =
  marks :: "string list"
  nodes :: "string list"

text \<open>
  A value of type \<open>JSONContent | JSONContent[]\<close>, and the type \<open>Content\<close> of the editor:
  an HTML string, JSON, or \<open>null\<close> (and \<open>undefined\<close>, which a caller may pass).
\<close>

datatype JSONInput = One JSONContent | Array "JSONContent list"

datatype Content = Null | Undefined | HTML string | JSON JSONInput

datatype blockType = mark | node

text \<open>
  JSON as it arrives at run time. The type \<open>JSONContent\<close> does not admit \<open>null\<close>, but a
  parsed JSON document may hold \<open>null\<close> where a mark or a child is expected: an element of
  \<open>marks\<close> or of \<open>content\<close> is \<open>None\<close> when it is \<open>null\<close>.
\<close>

datatype JSONTree =
  JSONTree (tree_type: "string option") (tree_attrs: "attrs option")
    (tree_marks: "MarkJSON option list option") (tree_content: "JSONTree option list option")

datatype RuntimeInput = OneTree JSONTree | TreeArray "JSONTree option list"






section \<open>Building a node from content (\<open>createNodeFromContent.ts\<close>)\<close>

record InvalidContentBlock =
  type :: blockType
  name :: "string option"
  path :: "string list"
  invalidParentNode :: bool
  invalidParentMark :: bool

text \<open>
  \<open>transformers.remove\<close>: the loop over \<open>invalidContent\<close>, whose state is \<open>newJSON\<close>.
  A block with an invalid parent node is skipped by \<open>continue\<close>; for the other blocks
  the body is a comment.
\<close>

fun remove_for :: "JSONContent \<Rightarrow> InvalidContentBlock list \<Rightarrow> JSONContent" where
  "remove_for newJSON [] = newJSON"
| "remove_for newJSON (block # blocks) =
     (if invalidParentNode block then remove_for newJSON blocks
      else remove_for newJSON blocks)"

definition transformers_remove :: "JSONContent \<Rightarrow> InvalidContentBlock list \<Rightarrow> JSONContent" where
  "transformers_remove j invalidContent = remove_for j invalidContent"







text \<open>
  The result of \<open>getInvalidContent\<close>. Its field \<open>transformers\<close> always holds the one
  object whose method is \<open>transformers_remove\<close>; it is not repeated in the record. The
  rest properties \<open>...extra\<close> are the field \<open>extra\<close>.
\<close>

record 'x GetInvalidContentReturn =
  json :: RuntimeInput
  invalidContent :: "InvalidContentBlock list"
  extra :: 'x













section \<open>The validator for unknown content\<close>

record unknownContentBlock =
  type :: blockType
  name :: string
  attributes :: "string list"
  path :: "string list"
  invalidParentNode :: bool
  invalidParentMark :: bool

text \<open>
  The loop over \<open>Object.entries(marks)\<close>. Its state is the list \<open>invalidMarks\<close>
  (entries are put in front by \<open>unshift\<close>) and the variable \<open>invalidParentMark\<close>.
\<close>

fun marks_forEach ::
  "string set \<Rightarrow> string list \<Rightarrow> bool \<Rightarrow> nat \<Rightarrow> MarkJSON list \<Rightarrow>
   unknownContentBlock list \<times> bool \<Rightarrow> unknownContentBlock list \<times> bool" where
  "marks_forEach validMarks p ipn index [] st = st"
| "marks_forEach validMarks p ipn index (m # ms) (invalidMarks, ipm) =
     (if mark_name m \<in> validMarks
      then marks_forEach validMarks p ipn (Suc index) ms (invalidMarks, ipm)
      else marks_forEach validMarks p ipn (Suc index) ms
        (\<lparr>type = mark, name = mark_name m,
          attributes = Object_keys (mark_attrs m),
          path = p @ [''marks'', string_of_index index],
          invalidParentNode = ipn,
          invalidParentMark = ipm\<rparr> # invalidMarks, True))"

text \<open>\<open>if (marks) { ... invalidNodes.push(...invalidMarks) }\<close>: an array is always truthy.\<close>

definition check_marks ::
  "string set \<Rightarrow> string list \<Rightarrow> bool \<Rightarrow> bool \<Rightarrow> MarkJSON list option \<Rightarrow>
   unknownContentBlock list \<times> bool" where
  "check_marks validMarks p ipn ipm ms =
     (case ms of None \<Rightarrow> ([], ipm)
      | Some l \<Rightarrow> marks_forEach validMarks p ipn 0 l ([], ipm))"

text \<open>\<open>type && !validNodes.has(type)\<close>: the empty string is falsy.\<close>

definition unknown_type :: "string set \<Rightarrow> string option \<Rightarrow> bool" where
  "unknown_type validNodes t =
     (case t of None \<Rightarrow> False | Some s \<Rightarrow> s \<noteq> [] \<and> s \<notin> validNodes)"

definition check_type ::
  "string set \<Rightarrow> string list \<Rightarrow> bool \<Rightarrow> bool \<Rightarrow> string option \<Rightarrow> attrs option \<Rightarrow>
   unknownContentBlock list" where
  "check_type validNodes p ipn ipm t a =
     (case t of
        None \<Rightarrow> []
      | Some s \<Rightarrow>
          if s \<noteq> [] \<and> s \<notin> validNodes
          then [\<lparr>type = node, name = s,
                 attributes = Object_keys (case a of None \<Rightarrow> [] | Some obj \<Rightarrow> obj),
                 path = p, invalidParentNode = ipn, invalidParentMark = ipm\<rparr>]
          else [])"

text \<open>
  \<open>checkForUnknownContent\<close>, with the options \<open>path\<close>, \<open>invalidParentNode\<close> and
  \<open>invalidParentMark\<close> as the arguments \<open>p\<close>, \<open>ipn\<close> and \<open>ipm\<close> (their defaults, the
  empty path and \<open>false\<close>, are supplied by the caller), and the loop over
  \<open>Object.entries(content)\<close>, whose state is the list \<open>unknownContent\<close>. The entries of
  the marks come first, then the entry of the node; the entries of the content are put in
  front of both.
\<close>

fun checkForUnknownContent ::
  "string set \<Rightarrow> string set \<Rightarrow> string list \<Rightarrow> bool \<Rightarrow> bool \<Rightarrow> JSONContent \<Rightarrow>
   unknownContentBlock list"
and content_forEach ::
  "string set \<Rightarrow> string set \<Rightarrow> string list \<Rightarrow> bool \<Rightarrow> bool \<Rightarrow> nat \<Rightarrow> JSONContent list \<Rightarrow>
   unknownContentBlock list \<Rightarrow> unknownContentBlock list" where
  "checkForUnknownContent validMarks validNodes p ipn ipm (JSONContent t a ms cs) =
     (case cs of
        None \<Rightarrow>
          fst (check_marks validMarks p ipn ipm ms)
          @ check_type validNodes p ipn (snd (check_marks validMarks p ipn ipm ms)) t a
      | Some children \<Rightarrow>
          content_forEach validMarks validNodes p
            (ipn \<or> unknown_type validNodes t)
            (snd (check_marks validMarks p ipn ipm ms)) 0 children []
          @ (fst (check_marks validMarks p ipn ipm ms)
             @ check_type validNodes p ipn (snd (check_marks validMarks p ipn ipm ms)) t a))"
| "content_forEach validMarks validNodes p ipn ipm index [] unknownContent = unknownContent"
| "content_forEach validMarks validNodes p ipn ipm index (v # vs) unknownContent =
     content_forEach validMarks validNodes p ipn ipm (Suc index) vs
       (checkForUnknownContent validMarks validNodes
          (p @ [''content'', string_of_index index]) ipn ipm v @ unknownContent)"

fun getUnknownContent :: "JSONInput \<Rightarrow> 'a Schema_scheme \<Rightarrow> unknownContentBlock list" where
  "getUnknownContent (One tree) schema =
     checkForUnknownContent (set (marks schema)) (set (nodes schema)) [] False False tree"
| "getUnknownContent (Array trees) schema =
     concat (map (\<lambda>(idx, tree).
         checkForUnknownContent (set (marks schema)) (set (nodes schema))
           [string_of_index idx] False False tree)
       (enumerate 0 trees))"

subsection \<open>The validator on JSON as it arrives at run time\<close>





section \<open>Placeholder extensions\<close>

subsection \<open>Plain objects and sets of the language\<close>

text \<open>
  A \<open>Set\<close> built from an array keeps each value once, in the order of first insertion.
\<close>

definition Set_add :: "'a list \<Rightarrow> 'a \<Rightarrow> 'a list" where
  "Set_add s x = (if x \<in> set s then s else s @ [x])"

definition new_Set :: "'a list \<Rightarrow> 'a list" where
  "new_Set xs = foldl Set_add [] xs"

text \<open>
  A plain object \<open>{}\<close> that is filled by assignments \<open>obj[key] = value\<close>: its own
  properties in creation order, and the object that an assignment to the key
  \<open>__proto__\<close> has installed as its prototype, if any. Such an assignment creates no own
  property. Assigning to an existing key keeps the key's position.
\<close>

type_synonym 'v plain_object = "(string \<times> 'v) list \<times> 'v option"

definition empty_object :: "'v plain_object" where
  "empty_object = ([], None)"

definition assign :: "'v plain_object \<Rightarrow> string \<Rightarrow> 'v \<Rightarrow> 'v plain_object" where
  "assign obj key v =
     (if key = ''__proto__'' then (fst obj, Some v)
      else (AList.update key v (fst obj), snd obj))"

text \<open>
  The order in which \<open>Object.keys\<close> and \<open>Object.values\<close> enumerate own properties: the
  keys that are array indices (canonical decimal numbers up to \<open>2^32 - 2\<close>) in ascending
  numeric order, then the other keys in creation order.
\<close>

definition is_array_index :: "string \<Rightarrow> bool" where
  "is_array_index s =
     (s \<noteq> [] \<and> list_all (\<lambda>c. c \<in> set ''0123456789'') s
      \<and> (s = ''0'' \<or> hd s \<noteq> CHR ''0'')
      \<and> index_of_string s \<le> 4294967294)"

definition own_property_order :: "(string \<times> 'v) list \<Rightarrow> (string \<times> 'v) list" where
  "own_property_order props =
     sort_key (\<lambda>kv. index_of_string (fst kv)) (filter (\<lambda>kv. is_array_index (fst kv)) props)
     @ filter (\<lambda>kv. \<not> is_array_index (fst kv)) props"

definition Object_values :: "'v plain_object \<Rightarrow> 'v list" where
  "Object_values obj = map snd (own_property_order (fst obj))"

subsection \<open>Extensions\<close>

text \<open>
  An extension of the editor, as far as this code writes or reads it: its class
  (\<open>Extension\<close>, \<open>Node\<close> or \<open>Mark\<close>) and, of its configuration, \<open>name\<close>, \<open>priority\<close>,
  \<open>group\<close>, \<open>content\<close>, the keys of the object returned by \<open>addAttributes\<close>, the rules
  returned by \<open>parseHTML\<close>, and \<open>renderHTML\<close>. A parse rule is a tag and whether its
  \<open>getAttrs\<close> records the element it is asked about. \<open>renderHTML\<close> either applies the
  caller's fallback (of the opaque type \<open>'r\<close>) or gives the tag with the attributes and a
  content hole.
\<close>

datatype extension_class = ExtensionClass | NodeClass | MarkClass

datatype parse_rule = ParseRule (tag: string) (getAttrs_records: bool)

datatype 'r render = Fallback 'r | Tag_hole string

datatype 'r AnyExtension = AnyExtension
  (ext_class: extension_class) (ext_name: string) (ext_priority: "int option")
  (ext_group: "string option") (ext_content: "string option")
  (ext_addAttributes: "string list") (ext_parseHTML: "parse_rule list")
  (ext_renderHTML: "'r render option")

definition MIN_SAFE_INTEGER :: int where
  "MIN_SAFE_INTEGER = - 9007199254740991"

record 'r PlaceholderExtensionOptions =
  fallback :: "'r option"

text \<open>An element of the DOM, as far as it is read: \<open>tagName\<close> and \<open>getAttributeNames()\<close>.\<close>

datatype HTMLElement = HTMLElement (tagName: string) (getAttributeNames: "string list")

text \<open>
  What this code uses from the rest of the repository and from the language:
  \<^item> \<open>createDocument_captures content extensions\<close>: the elements that the parser hands to a
    recording \<open>getAttrs\<close> while \<open>createDocument\<close> parses \<open>content\<close> against the schema of
    the resolved \<open>extensions\<close>, in order;
  \<^item> \<open>schema_of extensions\<close>: \<open>getSchemaByResolvedExtensions(ExtensionManager.resolve(extensions))\<close>;
  \<^item> \<open>toLowerCase\<close> of strings.
\<close>

record 'r Environment =
  createDocument_captures :: "Content \<Rightarrow> 'r AnyExtension list \<Rightarrow> HTMLElement list"
  schema_of :: "'r AnyExtension list \<Rightarrow> Schema"
  toLowerCase :: "string \<Rightarrow> string"

text \<open>The temporary extension of \<open>getUnknownHTMLElements\<close>, which matches every tag.\<close>

definition unknown_placeholder_node :: "'r AnyExtension" where
  "unknown_placeholder_node =
     AnyExtension NodeClass ''tiptap-unknown-placeholder-node'' (Some MIN_SAFE_INTEGER)
       (Some ''block'') (Some ''inline*'') [] [ParseRule ''*'' True] None"

definition getUnknownHTMLElements ::
  "'r Environment \<Rightarrow> Content \<Rightarrow> 'r AnyExtension list \<Rightarrow> HTMLElement list" where
  "getUnknownHTMLElements env c extensions =
     createDocument_captures env c (extensions @ [unknown_placeholder_node])"

subsection \<open>\<open>generatePlaceholderNodeExtensions\<close>\<close>

text \<open>The argument type \<open>{ type, tagName, attributes }\<close>.\<close>

datatype element = Element (el_type: blockType) (el_tagName: string) (el_attributes: "string list")

text \<open>
  The keys of the object that \<open>addAttributes\<close> builds by assigning one property for each
  name of the set.
\<close>

definition addAttributes :: "string list \<Rightarrow> string list" where
  "addAttributes names =
     map fst (own_property_order (fst (foldl (\<lambda>acc n. assign acc n ()) empty_object names)))"

text \<open>\<open>(type === 'mark' ? Mark : Node).create({ ... })\<close>\<close>

definition create_placeholder ::
  "blockType \<Rightarrow> string \<Rightarrow> string list \<Rightarrow> 'r PlaceholderExtensionOptions \<Rightarrow> 'r AnyExtension" where
  "create_placeholder t tag_name names options =
     AnyExtension (if t = mark then MarkClass else NodeClass) tag_name (Some MIN_SAFE_INTEGER)
       (if t = mark then None else Some ''block'')
       (if t = mark then None else Some ''inline*'')
       (addAttributes names)
       [ParseRule tag_name False]
       (Some (case fallback options of Some f \<Rightarrow> Fallback f | None \<Rightarrow> Tag_hole tag_name))"

text \<open>
  \<open>extensionMap[tagName]?.attributes || []\<close>. For the key \<open>__proto__\<close> the read gives the
  prototype: the entry that an earlier assignment installed, or \<open>Object.prototype\<close>, which
  has no property \<open>attributes\<close>. A key that is not an own property is looked up along the
  prototype chain, where no value has a property \<open>attributes\<close>.
\<close>

definition seen_attributes ::
  "(string list \<times> 'r AnyExtension) plain_object \<Rightarrow> string \<Rightarrow> string list" where
  "seen_attributes extensionMap key =
     (if key = ''__proto__''
      then (case snd extensionMap of None \<Rightarrow> [] | Some entry \<Rightarrow> fst entry)
      else (case map_of (fst extensionMap) key of None \<Rightarrow> [] | Some entry \<Rightarrow> fst entry))"

text \<open>The function given to \<open>reduce\<close>.\<close>

definition reducer ::
  "'r PlaceholderExtensionOptions \<Rightarrow> (string list \<times> 'r AnyExtension) plain_object \<Rightarrow> element \<Rightarrow>
   (string list \<times> 'r AnyExtension) plain_object" where
  "reducer options extensionMap el =
     assign extensionMap (el_tagName el)
       (new_Set (seen_attributes extensionMap (el_tagName el) @ el_attributes el),
        create_placeholder (el_type el) (el_tagName el)
          (new_Set (seen_attributes extensionMap (el_tagName el) @ el_attributes el)) options)"

definition generatePlaceholderNodeExtensions ::
  "element list \<Rightarrow> 'r PlaceholderExtensionOptions \<Rightarrow> 'r AnyExtension list" where
  "generatePlaceholderNodeExtensions elements options =
     map snd (Object_values (foldl (reducer options) empty_object elements))"

subsection \<open>\<open>isContentInvalid\<close> and \<open>createPlaceholderExtensions\<close>\<close>

text \<open>
  \<open>!content\<close> holds for \<open>null\<close>, \<open>undefined\<close> and the empty string. Every object and
  every array is truthy.
\<close>

fun isContentInvalid :: "Content \<Rightarrow> 'r Environment \<Rightarrow> 'r AnyExtension list \<Rightarrow> bool" where
  "isContentInvalid (HTML s) env extensions =
     (if s = [] then False
      else getUnknownHTMLElements env (HTML s) extensions \<noteq> [])"
| "isContentInvalid (JSON j) env extensions =
     (getUnknownContent j (schema_of env extensions) \<noteq> [])"
| "isContentInvalid Null env extensions = False"
| "isContentInvalid Undefined env extensions = False"

fun createPlaceholderExtensions ::
  "Content \<Rightarrow> 'r Environment \<Rightarrow> 'r AnyExtension list \<Rightarrow> 'r PlaceholderExtensionOptions \<Rightarrow>
   'r AnyExtension list" where
  "createPlaceholderExtensions (HTML s) env extensions options =
     (if s = [] then extensions
      else if getUnknownHTMLElements env (HTML s) extensions = [] then extensions
      else filter (\<lambda>extension. ext_name extension \<noteq> ''collaboration'') extensions
           @ generatePlaceholderNodeExtensions
               (map (\<lambda>n. Element node (toLowerCase env (tagName n)) (getAttributeNames n))
                  (getUnknownHTMLElements env (HTML s) extensions))
               options)"
| "createPlaceholderExtensions (JSON j) env extensions options =
     (if getUnknownContent j (schema_of env extensions) = [] then extensions
      else extensions
           @ generatePlaceholderNodeExtensions
               (map (\<lambda>b. Element (type b) (name b) (attributes b))
                  (getUnknownContent j (schema_of env extensions)))
               options)"
| "createPlaceholderExtensions Null env extensions options = extensions"
| "createPlaceholderExtensions Undefined env extensions options = extensions"

section \<open>Notions used to state the properties\<close>



text \<open>
  The entries for the unknown marks of one node, in declaration order: the first carries
  the inherited flag \<open>invalidParentMark\<close>, each later one carries \<open>True\<close>.
\<close>

definition mark_entry :: "string list \<Rightarrow> bool \<Rightarrow> bool \<Rightarrow> nat \<times> MarkJSON \<Rightarrow> unknownContentBlock" where
  "mark_entry p ipn ipm im =
     \<lparr>type = mark, name = mark_name (snd im), attributes = Object_keys (mark_attrs (snd im)),
      path = p @ [''marks'', string_of_index (fst im)],
      invalidParentNode = ipn, invalidParentMark = ipm\<rparr>"

definition declared_mark_entries ::
  "string set \<Rightarrow> string list \<Rightarrow> bool \<Rightarrow> bool \<Rightarrow> MarkJSON list \<Rightarrow> unknownContentBlock list" where
  "declared_mark_entries vm p ipn ipm ms =
     (case filter (\<lambda>im. mark_name (snd im) \<notin> vm) (enumerate 0 ms) of
        [] \<Rightarrow> []
      | first # later \<Rightarrow> mark_entry p ipn ipm first # map (mark_entry p ipn True) later)"

fun marks_of :: "JSONContent \<Rightarrow> MarkJSON list" where
  "marks_of (JSONContent t a None cs) = []"
| "marks_of (JSONContent t a (Some ms) cs) = ms"














text \<open>An entry whose path is the path of the node followed by \<open>marks\<close> and one index.\<close>

definition own_mark_entry :: "string list \<Rightarrow> unknownContentBlock \<Rightarrow> bool" where
  "own_mark_entry p b = (take (Suc (length p)) (path b) = p @ [''marks''])"

text \<open>
  The attribute names observed for a tag name, over all observations with that tag name,
  and the entry that the map of \<open>generatePlaceholderNodeExtensions\<close> holds for it.
\<close>

definition observed_attributes :: "string \<Rightarrow> element list \<Rightarrow> string list" where
  "observed_attributes k es =
     new_Set (concat (map el_attributes (filter (\<lambda>e. el_tagName e = k) es)))"

definition expected_entry ::
  "'r PlaceholderExtensionOptions \<Rightarrow> string \<Rightarrow> element list \<Rightarrow> string list \<times> 'r AnyExtension" where
  "expected_entry options k es =
     (observed_attributes k es,
      create_placeholder (el_type (last (filter (\<lambda>e. el_tagName e = k) es))) k
        (observed_attributes k es) options)"

text \<open>Example inputs.\<close>

definition spec_example :: JSONContent where
  "spec_example =
     JSONContent (Some ''doc'') None None (Some [
       JSONContent (Some ''paragraph'') None (Some [MarkObject ''bogusMark'' None])
         (Some [JSONContent (Some ''bogusNode'') None None None])])"

definition basic_schema :: Schema where
  "basic_schema = \<lparr>marks = [''bold''], nodes = [''doc'', ''paragraph'', ''text'']\<rparr>"

definition marked_unknown_node :: JSONContent where
  "marked_unknown_node =
     JSONContent (Some ''bogusNode'') None (Some [MarkObject ''bogusMark'' None]) None"

definition empty_schema :: Schema where
  "empty_schema = \<lparr>marks = [], nodes = []\<rparr>"

definition bogusMark_entry :: unknownContentBlock where
  "bogusMark_entry =
     \<lparr>type = mark, name = ''bogusMark'', attributes = [], path = [''marks'', ''0''],
      invalidParentNode = False, invalidParentMark = False\<rparr>"

definition bogusNode_entry :: unknownContentBlock where
  "bogusNode_entry =
     \<lparr>type = node, name = ''bogusNode'', attributes = [], path = [],
      invalidParentNode = False, invalidParentMark = True\<rparr>"

definition untyped_object :: JSONContent where
  "untyped_object = JSONContent None None None None"

definition two_unknown_marks :: JSONContent where
  "two_unknown_marks =
     JSONContent (Some ''doc'') None (Some [MarkString ''m1'', MarkString ''m2'']) None"

definition m1_entry :: unknownContentBlock where
  "m1_entry =
     \<lparr>type = mark, name = ''m1'', attributes = [], path = [''marks'', ''0''],
      invalidParentNode = False, invalidParentMark = False\<rparr>"

definition m2_entry :: unknownContentBlock where
  "m2_entry =
     \<lparr>type = mark, name = ''m2'', attributes = [], path = [''marks'', ''1''],
      invalidParentNode = False, invalidParentMark = True\<rparr>"

definition nested_unknown_nodes :: JSONContent where
  "nested_unknown_nodes =
     JSONContent (Some ''callout'') None None
       (Some [JSONContent (Some ''widget'') None None None])"

definition two_marks_two_children :: JSONContent where
  "two_marks_two_children =
     JSONContent (Some ''callout'') None (Some [MarkString ''m1'', MarkString ''m2''])
       (Some [JSONContent (Some ''x'') None None None, JSONContent (Some ''y'') None None None])"


definition no_fallback :: "unit PlaceholderExtensionOptions" where
  "no_fallback = \<lparr>fallback = None\<rparr>"

definition ascii_lower :: "char \<Rightarrow> char" where
  "ascii_lower c =
     (case map_of (zip ''ABCDEFGHIJKLMNOPQRSTUVWXYZ'' ''abcdefghijklmnopqrstuvwxyz'') c of
        Some l \<Rightarrow> l | None \<Rightarrow> c)"

definition paragraph_extension :: "unit AnyExtension" where
  "paragraph_extension =
     AnyExtension NodeClass ''paragraph'' (Some 1000) (Some ''block'') (Some ''inline*'') []
       [ParseRule ''p'' False] None"

definition collaboration_extension :: "unit AnyExtension" where
  "collaboration_extension =
     AnyExtension ExtensionClass ''collaboration'' (Some 1000) None None [] [] None"

definition bold_extension :: "unit AnyExtension" where
  "bold_extension =
     AnyExtension MarkClass ''bold'' None None None [] [ParseRule ''strong'' False] None"

definition widget_environment :: "unit Environment" where
  "widget_environment =
     \<lparr>createDocument_captures = (\<lambda>c extensions. [HTMLElement ''CUSTOM-WIDGET'' [''data-id'']]),
      schema_of = (\<lambda>extensions. basic_schema),
      toLowerCase = map ascii_lower\<rparr>"

definition same_tag_two_kinds :: "element list" where
  "same_tag_two_kinds = [Element node ''widget'' [''a''], Element mark ''widget'' [''b'']]"

definition widget_mark_extension :: "unit AnyExtension" where
  "widget_mark_extension =
     AnyExtension MarkClass ''widget'' (Some MIN_SAFE_INTEGER) None None [''a'', ''b'']
       [ParseRule ''widget'' False] (Some (Tag_hole ''widget''))"








section \<open>Properties of the validator\<close>

subsection \<open>The two loops\<close>

lemma content_forEach_eq:
  "content_forEach vm vn p ipn ipm i cs acc =
     concat (rev (map (\<lambda>(k, c). checkForUnknownContent vm vn (p @ [''content'', string_of_index k]) ipn ipm c)
       (enumerate i cs))) @ acc"
  by (induction cs arbitrary: i acc) simp_all

lemma marks_forEach_eq:
  "marks_forEach vm p ipn i ms (acc, ipm) =
     (rev (case filter (\<lambda>im. mark_name (snd im) \<notin> vm) (enumerate i ms) of
        [] \<Rightarrow> []
      | first # later \<Rightarrow> mark_entry p ipn ipm first # map (mark_entry p ipn True) later) @ acc,
      ipm \<or> (\<exists>m \<in> set ms. mark_name m \<notin> vm))"
proof (induction ms arbitrary: i acc ipm)
  case Nil
  then show ?case by simp
next
  case (Cons m ms)
  show ?case
  proof (cases "mark_name m \<in> vm")
    case True
    then show ?thesis using Cons.IH [of "Suc i" acc ipm] by simp
  next
    case False
    have "marks_forEach vm p ipn i (m # ms) (acc, ipm) =
          marks_forEach vm p ipn (Suc i) ms (mark_entry p ipn ipm (i, m) # acc, True)"
      using False by (simp add: mark_entry_def)
    also have "\<dots> = (rev (map (mark_entry p ipn True)
            (filter (\<lambda>im. mark_name (snd im) \<notin> vm) (enumerate (Suc i) ms)))
          @ mark_entry p ipn ipm (i, m) # acc, True)"
      by (simp add: Cons.IH split: list.split)
    finally show ?thesis using False by simp
  qed
qed

lemma check_marks_eq:
  "check_marks vm p ipn ipm mso =
     (rev (declared_mark_entries vm p ipn ipm (case mso of None \<Rightarrow> [] | Some ms \<Rightarrow> ms)),
      ipm \<or> (\<exists>m \<in> set (case mso of None \<Rightarrow> [] | Some ms \<Rightarrow> ms). mark_name m \<notin> vm))"
  by (cases mso) (simp_all add: check_marks_def declared_mark_entries_def marks_forEach_eq)

lemma check_decomp:
  "checkForUnknownContent vm vn p ipn ipm (JSONContent t a ms cs) =
     concat (rev (map (\<lambda>(k, c). checkForUnknownContent vm vn
          (p @ [''content'', string_of_index k])
          (ipn \<or> unknown_type vn t) (snd (check_marks vm p ipn ipm ms)) c)
        (enumerate 0 (case cs of None \<Rightarrow> [] | Some l \<Rightarrow> l))))
     @ fst (check_marks vm p ipn ipm ms)
     @ check_type vn p ipn (snd (check_marks vm p ipn ipm ms)) t a"
  by (cases cs) (simp_all add: content_forEach_eq)

lemma check_marks_path:
  "b \<in> set (fst (check_marks vm p ipn ipm ms)) \<Longrightarrow>
     \<exists>i. path b = p @ [''marks'', i] \<and> invalidParentNode b = ipn \<and> type b = mark"
  by (auto simp: check_marks_eq declared_mark_entries_def mark_entry_def split: list.splits option.splits)

lemma check_type_path:
  "b \<in> set (check_type vn p ipn ipm t a) \<Longrightarrow>
     path b = p \<and> invalidParentNode b = ipn \<and> type b = node \<and> unknown_type vn t"
  by (auto simp: check_type_def unknown_type_def split: option.splits if_splits)

lemma check_type_unknown:
  "unknown_type vn t \<Longrightarrow> \<exists>b. check_type vn p ipn ipm t a = [b] \<and> path b = p \<and> type b = node"
  by (auto simp: check_type_def unknown_type_def split: option.splits if_splits)

lemma check_prefix:
  "b \<in> set (checkForUnknownContent vm vn p ipn ipm tree) \<Longrightarrow> prefix p (path b)"
proof (induction tree arbitrary: p ipn ipm b)
  case (JSONContent t a ms cs)
  from JSONContent.prems show ?case
    unfolding check_decomp
  proof (auto dest!: check_marks_path check_type_path simp: in_set_enumerate_eq split: option.splits)
    fix l k c
    assume "cs = Some l" "k < length l" "b \<in> set (checkForUnknownContent vm vn (p @ [''content'', string_of_index k])
          (ipn \<or> unknown_type vn t) (snd (check_marks vm p ipn ipm ms)) (l ! k))"
    then have "prefix (p @ [''content'', string_of_index k]) (path b)"
      using JSONContent.IH [of l "l ! k"] by auto
    then show "prefix p (path b)" by (meson append_prefixD)
  qed
qed

subsection \<open>Array indices as strings\<close>

lemma string_of_index_small: "n < 10 \<Longrightarrow> string_of_index n = [digit_char n]"
  by (simp add: string_of_index.simps [of n])

lemma digit_char_inverse: "d < 10 \<Longrightarrow> of_char (digit_char d) - 48 = d"
  by (auto simp: digit_char_def less_Suc_eq numeral_eq_Suc)

lemma index_of_string_inverse: "index_of_string (string_of_index n) = n"
proof (induction n rule: string_of_index.induct)
  case (1 n)
  show ?case
  proof (cases "n < 10")
    case True
    then show ?thesis
      by (simp add: string_of_index.simps [of n] index_of_string_def digit_char_inverse)
  next
    case False
    then have "index_of_string (string_of_index n) =
        10 * index_of_string (string_of_index (n div 10)) + (n mod 10)"
      by (simp add: string_of_index.simps [of n] index_of_string_def digit_char_inverse)
    then show ?thesis using 1 False by simp
  qed
qed

lemma string_of_index_inj: "string_of_index i = string_of_index j \<Longrightarrow> i = j"
  by (metis index_of_string_inverse)

subsection \<open>Paths and the flag \<open>invalidParentNode\<close>\<close>

lemma in_concat_enumerate:
  "x \<in> set (concat (rev (map (\<lambda>(k, c). f k c) (enumerate 0 l)))) \<longleftrightarrow>
     (\<exists>k < length l. x \<in> set (f k (l ! k)))"
proof
  assume "x \<in> set (concat (rev (map (\<lambda>(k, c). f k c) (enumerate 0 l))))"
  then obtain k c where "(k, c) \<in> set (enumerate 0 l)" "x \<in> set (f k c)"
    by auto
  then show "\<exists>k < length l. x \<in> set (f k (l ! k))"
    by (auto simp: in_set_enumerate_eq)
next
  assume "\<exists>k < length l. x \<in> set (f k (l ! k))"
  then obtain k where "k < length l" "x \<in> set (f k (l ! k))" by blast
  then have "(k, l ! k) \<in> set (enumerate 0 l)" "x \<in> set (f k (l ! k))"
    by (simp_all add: in_set_enumerate_eq)
  then show "x \<in> set (concat (rev (map (\<lambda>(k, c). f k c) (enumerate 0 l))))"
    by (simp only: set_concat set_rev set_map) blast
qed

lemma set_concat_enumerate:
  "set (concat (rev (map (\<lambda>(k, c). f k c) (enumerate 0 l)))) = (\<Union>k \<in> {..<length l}. set (f k (l ! k)))"
  using in_concat_enumerate [of _ f l] by blast

lemma check_ipn:
  "b \<in> set (checkForUnknownContent vm vn p ipn ipm tree) \<Longrightarrow>
     invalidParentNode b \<longleftrightarrow>
       (ipn \<or> (\<exists>b' \<in> set (checkForUnknownContent vm vn p ipn ipm tree).
          type b' = node \<and> prefix (path b' @ [''content'']) (path b)))"
proof (induction tree arbitrary: p ipn ipm b)
  case (JSONContent t a ms cs)
  let ?l = "case cs of None \<Rightarrow> [] | Some l \<Rightarrow> l"
  let ?ipn' = "ipn \<or> unknown_type vn t"
  let ?ipm' = "snd (check_marks vm p ipn ipm ms)"
  let ?pk = "\<lambda>k. p @ [''content'', string_of_index k]"
  let ?child = "\<lambda>k. checkForUnknownContent vm vn (?pk k) ?ipn' ?ipm' (?l ! k)"
  let ?own_marks = "fst (check_marks vm p ipn ipm ms)"
  let ?own_node = "check_type vn p ipn ?ipm' t a"
  let ?R = "checkForUnknownContent vm vn p ipn ipm (JSONContent t a ms cs)"
  have R: "set ?R = (\<Union>k \<in> {..<length ?l}. set (?child k)) \<union> set ?own_marks \<union> set ?own_node"
    by (simp only: check_decomp set_append set_concat_enumerate Un_assoc)
  have IH: "c \<in> set (?child k) \<Longrightarrow> k < length ?l \<Longrightarrow>
      invalidParentNode c \<longleftrightarrow>
        (?ipn' \<or> (\<exists>b' \<in> set (?child k). type b' = node \<and> prefix (path b' @ [''content'']) (path c)))"
    for c k
    using JSONContent.IH [of ?l "?l ! k" c "?pk k" ?ipn' ?ipm']
    by (cases cs) auto
  have own_node_in: "unknown_type vn t \<Longrightarrow> \<exists>b0 \<in> set ?R. path b0 = p \<and> type b0 = node"
    using check_type_unknown [of vn t p ipn ?ipm' a] unfolding R by auto
  from JSONContent.prems have "b \<in> set ?R" .
  then consider
      (child) k where "k < length ?l" "b \<in> set (?child k)"
    | (own_mark) "b \<in> set ?own_marks"
    | (own_node) "b \<in> set ?own_node"
    unfolding R by auto
  then show ?case
  proof cases
    case (child k)
    have pk: "prefix (?pk k) (path b)" using child(2) by (rule check_prefix)
    show ?thesis
    proof
      assume "invalidParentNode b"
      then consider "ipn" | "unknown_type vn t"
        | b' where "b' \<in> set (?child k)" "type b' = node" "prefix (path b' @ [''content'']) (path b)"
        using IH [OF child(2) child(1)] by auto
      then show "ipn \<or> (\<exists>b' \<in> set ?R. type b' = node \<and> prefix (path b' @ [''content'']) (path b))"
      proof cases
        case 1
        then show ?thesis by simp
      next
        case 2
        then obtain b0 where "b0 \<in> set ?R" "path b0 = p" "type b0 = node"
          using own_node_in by blast
        moreover have "prefix (p @ [''content'']) (path b)"
          using pk by (auto simp: prefix_def)
        ultimately show ?thesis by auto
      next
        case 3
        then have "b' \<in> set ?R" using child(1) unfolding R by auto
        then show ?thesis using 3 by blast
      qed
    next
      assume "ipn \<or> (\<exists>b' \<in> set ?R. type b' = node \<and> prefix (path b' @ [''content'']) (path b))"
      then consider "ipn"
        | b' where "b' \<in> set ?R" "type b' = node" "prefix (path b' @ [''content'']) (path b)"
        by auto
      then show "invalidParentNode b"
      proof cases
        case 1
        then show ?thesis using IH [OF child(2) child(1)] by simp
      next
        case 2
        from 2(1) consider
            (c') k' where "k' < length ?l" "b' \<in> set (?child k')"
          | (m') "b' \<in> set ?own_marks"
          | (n') "b' \<in> set ?own_node"
          unfolding R by auto
        then show ?thesis
        proof cases
          case (c' k')
          have "prefix (?pk k') (path b')" using c'(2) by (rule check_prefix)
          then have "prefix (?pk k') (path b)"
            using 2(3) by (meson append_prefixD prefix_order.trans)
          with pk have "prefix (?pk k) (?pk k') \<or> prefix (?pk k') (?pk k)"
            by (rule prefix_same_cases)
          then have "string_of_index k = string_of_index k'" by auto
          then have "k' = k" by (simp add: string_of_index_inj)
          then show ?thesis using IH [OF child(2) child(1)] c'(2) 2 by blast
        next
          case m'
          then show ?thesis using 2(2) check_marks_path [of b' vm p ipn ipm ms] by auto
        next
          case n'
          then have "unknown_type vn t" using check_type_path by blast
          then show ?thesis using IH [OF child(2) child(1)] by simp
        qed
      qed
    qed
  next
    case own_mark
    then obtain i where b: "path b = p @ [''marks'', i]" "invalidParentNode b = ipn"
      using check_marks_path by blast
    have "\<not> prefix (path b' @ [''content'']) (path b)" if "b' \<in> set ?R" "type b' = node" for b'
    proof -
      from that(1) consider
          (c') k' where "k' < length ?l" "b' \<in> set (?child k')"
        | (m') "b' \<in> set ?own_marks"
        | (n') "b' \<in> set ?own_node"
        unfolding R by auto
      then show ?thesis
      proof cases
        case (c' k')
        have "prefix (?pk k') (path b')" using c'(2) by (rule check_prefix)
        then obtain r where "path b' = ?pk k' @ r" by (auto simp: prefix_def)
        then show ?thesis using b(1) by simp
      next
        case m'
        then show ?thesis using that(2) check_marks_path [of b' vm p ipn ipm ms] by auto
      next
        case n'
        then have "path b' = p" using check_type_path by blast
        then show ?thesis using b(1) by simp
      qed
    qed
    then show ?thesis using b(2) by blast
  next
    case own_node
    then have b: "path b = p" "invalidParentNode b = ipn"
      using check_type_path by blast+
    have "\<not> prefix (path b' @ [''content'']) (path b)" if "b' \<in> set ?R" for b'
    proof -
      have "prefix p (path b')" using that by (rule check_prefix)
      then obtain r where "path b' = p @ r" by (auto simp: prefix_def)
      then show ?thesis using b(1) by (simp add: prefix_def)
    qed
    then show ?thesis using b(2) by blast
  qed
qed

lemma in_concat_enumerate_fwd:
  "x \<in> set (concat (map (\<lambda>(k, c). f k c) (enumerate 0 l))) \<longleftrightarrow>
     (\<exists>k < length l. x \<in> set (f k (l ! k)))"
  using in_concat_enumerate [of x f l] by (simp only: set_concat set_rev set_map)



subsection \<open>The validator at run time\<close>









section \<open>The claims about the validator\<close>

text \<open>
  C2: for the example tree of the specification, against a schema whose node names are
  exactly \<open>doc\<close>, \<open>paragraph\<close> and \<open>text\<close> and whose mark names do not contain
  \<open>bogusMark\<close>, \<open>getUnknownContent\<close> returns exactly two entries: first the node
  \<open>bogusNode\<close> at path \<open>content, 0, content, 0\<close>, then the mark \<open>bogusMark\<close> at path
  \<open>content, 0, marks, 0\<close> with \<open>invalidParentNode = False\<close>.
\<close>

theorem getUnknownContent_example:
  assumes "''bogusMark'' \<notin> set (marks schema)"
    and "set (nodes schema) = {''doc'', ''paragraph'', ''text''}"
  shows "getUnknownContent (One spec_example) schema =
    [\<lparr>type = node, name = ''bogusNode'', attributes = [],
      path = [''content'', ''0'', ''content'', ''0''],
      invalidParentNode = False, invalidParentMark = True\<rparr>,
     \<lparr>type = mark, name = ''bogusMark'', attributes = [],
      path = [''content'', ''0'', ''marks'', ''0''],
      invalidParentNode = False, invalidParentMark = False\<rparr>]"
  using assms
  by (simp add: spec_example_def check_marks_def check_type_def unknown_type_def Object_keys_def
      string_of_index_small digit_char_def)

theorem getUnknownContent_example_witness:
  "''bogusMark'' \<notin> set (marks basic_schema)
   \<and> set (nodes basic_schema) = {''doc'', ''paragraph'', ''text''}
   \<and> getUnknownContent (One spec_example) basic_schema =
    [\<lparr>type = node, name = ''bogusNode'', attributes = [],
      path = [''content'', ''0'', ''content'', ''0''],
      invalidParentNode = False, invalidParentMark = True\<rparr>,
     \<lparr>type = mark, name = ''bogusMark'', attributes = [],
      path = [''content'', ''0'', ''marks'', ''0''],
      invalidParentNode = False, invalidParentMark = False\<rparr>]"
proof -
  have h1: "''bogusMark'' \<notin> set (marks basic_schema)"
    by (simp add: basic_schema_def)
  have h2: "set (nodes basic_schema) = {''doc'', ''paragraph'', ''text''}"
    by (simp add: basic_schema_def)
  show ?thesis
    using h1 h2 getUnknownContent_example [OF h1 h2] by simp
qed

text \<open>
  C3, as stated, fails: a mark attached to an unknown node has a path that strictly
  extends the path of the node's entry, and its flag \<open>invalidParentNode\<close> is the
  inherited one, here \<open>False\<close>.
\<close>

theorem invalidParentNode_strict_extension_counterexample:
  "getUnknownContent (One marked_unknown_node) empty_schema =
     [bogusMark_entry, bogusNode_entry]
   \<and> strict_prefix (path bogusNode_entry) (path bogusMark_entry)
   \<and> \<not> invalidParentNode bogusMark_entry"
  by (simp add: marked_unknown_node_def empty_schema_def bogusMark_entry_def
      bogusNode_entry_def check_marks_def check_type_def
      Object_keys_def string_of_index_small digit_char_def)

text \<open>
  C3, amended: an entry of the sequence returned by \<open>getUnknownContent\<close> has
  \<open>invalidParentNode = True\<close> if and only if its path runs through the \<open>content\<close> of a
  node entry of the same sequence, that is, it extends the path of that node entry
  followed by the segment \<open>content\<close>.
\<close>

theorem invalidParentNode_iff_inside_unknown_node:
  assumes "b \<in> set (getUnknownContent input schema)"
  shows "invalidParentNode b \<longleftrightarrow>
    (\<exists>b' \<in> set (getUnknownContent input schema).
       type b' = node \<and> prefix (path b' @ [''content'']) (path b))"
proof (cases input)
  case (One tree)
  then show ?thesis using assms check_ipn [of b _ _ "[]" False False tree] by simp
next
  case (Array trees)
  let ?vm = "set (marks schema)" and ?vn = "set (nodes schema)"
  let ?R = "\<lambda>k. checkForUnknownContent ?vm ?vn [string_of_index k] False False (trees ! k)"
  have mem: "x \<in> set (getUnknownContent input schema) \<longleftrightarrow> (\<exists>k < length trees. x \<in> set (?R k))" for x
    by (simp only: Array getUnknownContent.simps in_concat_enumerate_fwd)
  from assms obtain k where k: "k < length trees" "b \<in> set (?R k)"
    using mem by blast
  have pk: "prefix [string_of_index k] (path b)" using k(2) by (rule check_prefix)
  note ipn = check_ipn [OF k(2)]
  show ?thesis
  proof
    assume "invalidParentNode b"
    then obtain b' where "b' \<in> set (?R k)" "type b' = node" "prefix (path b' @ [''content'']) (path b)"
      using ipn by auto
    then show "\<exists>b' \<in> set (getUnknownContent input schema).
       type b' = node \<and> prefix (path b' @ [''content'']) (path b)"
      using mem k(1) by blast
  next
    assume "\<exists>b' \<in> set (getUnknownContent input schema).
       type b' = node \<and> prefix (path b' @ [''content'']) (path b)"
    then obtain b' k' where b': "k' < length trees" "b' \<in> set (?R k')" "type b' = node"
      "prefix (path b' @ [''content'']) (path b)"
      using mem by blast
    have "prefix [string_of_index k'] (path b')" using b'(2) by (rule check_prefix)
    then have "prefix [string_of_index k'] (path b)"
      using b'(4) by (meson append_prefixD prefix_order.trans)
    with pk have "prefix [string_of_index k] [string_of_index k'] \<or>
        prefix [string_of_index k'] [string_of_index k]"
      by (rule prefix_same_cases)
    then have "k' = k" by (auto dest: string_of_index_inj)
    then show "invalidParentNode b" using ipn b' by blast
  qed
qed

theorem invalidParentNode_iff_inside_unknown_node_witness:
  "\<lparr>type = node, name = ''widget'', attributes = [], path = [''content'', ''0''],
     invalidParentNode = True, invalidParentMark = False\<rparr>
     \<in> set (getUnknownContent (One nested_unknown_nodes) basic_schema)
   \<and> (\<exists>b' \<in> set (getUnknownContent (One nested_unknown_nodes) basic_schema).
         type b' = node \<and> prefix (path b' @ [''content'']) [''content'', ''0''])"
proof -
  have h: "\<lparr>type = node, name = ''widget'', attributes = [], path = [''content'', ''0''],
     invalidParentNode = True, invalidParentMark = False\<rparr>
     \<in> set (getUnknownContent (One nested_unknown_nodes) basic_schema)"
    by (simp add: nested_unknown_nodes_def basic_schema_def check_marks_def check_type_def
        unknown_type_def Object_keys_def string_of_index_small digit_char_def)
  show ?thesis
    using h invalidParentNode_iff_inside_unknown_node [OF h] by simp
qed

text \<open>
  C5: the report for a node lists the reports of its children in reverse sibling order,
  then the node's own mark entries (in reverse declaration order), then the entry for the
  node itself when its type is unknown. The children are checked with the flags left by
  the node: \<open>invalidParentNode\<close> is set when the node's type is unknown,
  \<open>invalidParentMark\<close> when one of its marks is.
\<close>

theorem report_children_then_marks_then_node:
  "checkForUnknownContent vm vn p ipn ipm (JSONContent t a ms cs) =
     concat (rev (map (\<lambda>(k, c). checkForUnknownContent vm vn
          (p @ [''content'', string_of_index k])
          (ipn \<or> unknown_type vn t) (snd (check_marks vm p ipn ipm ms)) c)
        (enumerate 0 (case cs of None \<Rightarrow> [] | Some l \<Rightarrow> l))))
     @ rev (declared_mark_entries vm p ipn ipm (marks_of (JSONContent t a ms cs)))
     @ check_type vn p ipn (snd (check_marks vm p ipn ipm ms)) t a"
  by (cases ms) (simp_all only: check_decomp check_marks_eq fst_conv option.case marks_of.simps)

theorem report_children_then_marks_then_node_witness:
  "checkForUnknownContent {} {''doc''} [] False False two_marks_two_children =
    [\<lparr>type = node, name = ''y'', attributes = [], path = [''content'', ''1''],
      invalidParentNode = True, invalidParentMark = True\<rparr>,
     \<lparr>type = node, name = ''x'', attributes = [], path = [''content'', ''0''],
      invalidParentNode = True, invalidParentMark = True\<rparr>,
     \<lparr>type = mark, name = ''m2'', attributes = [], path = [''marks'', ''1''],
      invalidParentNode = False, invalidParentMark = True\<rparr>,
     \<lparr>type = mark, name = ''m1'', attributes = [], path = [''marks'', ''0''],
      invalidParentNode = False, invalidParentMark = False\<rparr>,
     \<lparr>type = node, name = ''callout'', attributes = [], path = [],
      invalidParentNode = False, invalidParentMark = True\<rparr>]"
  using report_children_then_marks_then_node [of "{}" "{''doc''}" "[]" False False
      "Some ''callout''" None "Some [MarkString ''m1'', MarkString ''m2'']"
      "Some [JSONContent (Some ''x'') None None None, JSONContent (Some ''y'') None None None]"]
  by (simp add: two_marks_two_children_def check_marks_def check_type_def unknown_type_def
      Object_keys_def string_of_index_small digit_char_def declared_mark_entries_def
      mark_entry_def)

text \<open>
  C6, as stated, fails: with two unknown marks on a node at the root, the entry reported
  after the first one is the entry of the mark declared first, and its
  \<open>invalidParentMark\<close> is \<open>False\<close>.
\<close>

theorem second_reported_mark_counterexample:
  "getUnknownContent (One two_unknown_marks) basic_schema = [m2_entry, m1_entry]
   \<and> \<not> invalidParentMark m1_entry"
  by (simp add: two_unknown_marks_def basic_schema_def m2_entry_def m1_entry_def
      check_marks_def check_type_def Object_keys_def string_of_index_small digit_char_def)

text \<open>
  C6, amended: among the entries reported for a node, those for the node's own marks are
  the entries for its unknown marks in reverse declaration order. The entry of the first
  unknown mark in declaration order, which is reported last, carries the
  \<open>invalidParentMark\<close> inherited by the node; the entry of each later unknown mark carries
  \<open>invalidParentMark = True\<close>.
\<close>

theorem own_marks_reverse_declaration_order:
  "filter (own_mark_entry p) (checkForUnknownContent vm vn p ipn ipm tree) =
     rev (declared_mark_entries vm p ipn ipm (marks_of tree))"
proof (cases tree)
  case (JSONContent t a ms cs)
  let ?kids = "concat (rev (map (\<lambda>(k, c). checkForUnknownContent vm vn
          (p @ [''content'', string_of_index k])
          (ipn \<or> unknown_type vn t) (snd (check_marks vm p ipn ipm ms)) c)
        (enumerate 0 (case cs of None \<Rightarrow> [] | Some l \<Rightarrow> l))))"
  have "\<not> own_mark_entry p b" if "b \<in> set ?kids" for b
  proof -
    from that obtain k where "prefix (p @ [''content'', string_of_index k]) (path b)"
      unfolding in_concat_enumerate using check_prefix by blast
    then show ?thesis by (auto simp: own_mark_entry_def prefix_def)
  qed
  then have kids: "filter (own_mark_entry p) ?kids = []"
    by (simp only: filter_empty_conv) blast
  have "own_mark_entry p b" if "b \<in> set (fst (check_marks vm p ipn ipm ms))" for b
    using check_marks_path [OF that] by (auto simp: own_mark_entry_def)
  then have own: "filter (own_mark_entry p) (fst (check_marks vm p ipn ipm ms)) =
      fst (check_marks vm p ipn ipm ms)"
    by (simp only: filter_id_conv) blast
  have "\<not> own_mark_entry p b" if "b \<in> set (check_type vn p ipn ipm' t a)" for b ipm'
    using check_type_path [OF that] by (simp add: own_mark_entry_def)
  then have ty: "filter (own_mark_entry p) (check_type vn p ipn ipm' t a) = []" for ipm'
    by (simp only: filter_empty_conv) blast
  have dm: "fst (check_marks vm p ipn ipm ms) =
      rev (declared_mark_entries vm p ipn ipm (marks_of (JSONContent t a ms cs)))"
    by (cases ms) (simp_all add: check_marks_eq)
  have "filter (own_mark_entry p) (checkForUnknownContent vm vn p ipn ipm (JSONContent t a ms cs)) =
      fst (check_marks vm p ipn ipm ms)"
    by (simp only: check_decomp filter_append kids own ty append_Nil append_Nil2)
  then show ?thesis
    by (simp only: JSONContent dm)
qed

theorem own_marks_reverse_declaration_order_witness:
  "filter (own_mark_entry []) (checkForUnknownContent {} {''doc''} [] False False two_marks_two_children) =
    [\<lparr>type = mark, name = ''m2'', attributes = [], path = [''marks'', ''1''],
      invalidParentNode = False, invalidParentMark = True\<rparr>,
     \<lparr>type = mark, name = ''m1'', attributes = [], path = [''marks'', ''0''],
      invalidParentNode = False, invalidParentMark = False\<rparr>]"
  using own_marks_reverse_declaration_order [of "[]" "{}" "{''doc''}" False False two_marks_two_children]
  by (simp add: two_marks_two_children_def declared_mark_entries_def mark_entry_def
      Object_keys_def string_of_index_small digit_char_def)




section \<open>Properties of \<open>createNodeFromContent.ts\<close>\<close>

lemma remove_for_id: "remove_for j bs = j"
  by (induction bs) simp_all

subsection \<open>The report of \<open>checkForInvalidContent\<close>\<close>












subsection \<open>The claims\<close>




text \<open>
  C8: the transformer \<open>remove\<close> returns the JSON it was given, for every list of invalid
  blocks.
\<close>

theorem transformers_remove_returns_input: "transformers_remove j blocks = j"
  by (simp add: transformers_remove_def remove_for_id)

theorem transformers_remove_returns_input_witness:
  "transformers_remove untyped_object
     [\<lparr>InvalidContentBlock.type = node, name = None, path = [],
       invalidParentNode = False, invalidParentMark = False\<rparr>] = untyped_object"
  using transformers_remove_returns_input [of untyped_object
     "[\<lparr>InvalidContentBlock.type = node, name = None, path = [],
       invalidParentNode = False, invalidParentMark = False\<rparr>]"]
  by simp

section \<open>Properties of the placeholder extensions\<close>

subsection \<open>Sets and plain objects\<close>

lemma foldl_Set_add:
  "set (foldl Set_add s xs) = set s \<union> set xs \<and> (distinct s \<longrightarrow> distinct (foldl Set_add s xs))"
  by (induction xs arbitrary: s) (auto simp: Set_add_def)

lemma set_new_Set: "set (new_Set xs) = set xs"
  by (simp add: new_Set_def foldl_Set_add)

lemma distinct_new_Set: "distinct (new_Set xs)"
  by (simp add: new_Set_def foldl_Set_add)

lemma foldl_Set_add_distinct: "distinct s \<Longrightarrow> foldl Set_add [] s = s"
proof (induction s rule: rev_induct)
  case Nil
  then show ?case by simp
next
  case (snoc x xs)
  then show ?case by (simp add: Set_add_def)
qed

lemma new_Set_append: "new_Set (new_Set xs @ ys) = new_Set (xs @ ys)"
  by (simp add: new_Set_def foldl_Set_add_distinct foldl_Set_add)

lemma set_own_property_order: "set (own_property_order ps) = set ps"
  by (auto simp: own_property_order_def)

lemma distinct_own_property_order:
  assumes "distinct (map fst ps)"
  shows "distinct (map fst (own_property_order ps))"
proof -
  have d: "distinct ps" and i: "inj_on fst (set ps)"
    using assms by (simp_all add: distinct_map)
  have "distinct (own_property_order ps)"
    using d by (auto simp: own_property_order_def)
  then show ?thesis
    using i by (simp add: distinct_map set_own_property_order)
qed

lemma keys_foldl_assign:
  "fst ` set (fst (foldl (\<lambda>acc n. assign acc n ()) obj ns)) =
     fst ` set (fst obj) \<union> (set ns - {''__proto__''})"
  by (induction ns arbitrary: obj) (auto simp: assign_def dom_update)

lemma set_addAttributes: "set (addAttributes ns) = set ns - {''__proto__''}"
  using keys_foldl_assign [of empty_object ns]
  by (simp add: addAttributes_def set_own_property_order empty_object_def)

subsection \<open>The map built by \<open>reduce\<close>\<close>

lemma observed_attributes_none:
  "k \<notin> el_tagName ` set es \<Longrightarrow> observed_attributes k es = []"
proof -
  assume "k \<notin> el_tagName ` set es"
  then have "filter (\<lambda>e. el_tagName e = k) es = []"
    by (auto simp: filter_empty_conv)
  then show ?thesis by (simp add: observed_attributes_def new_Set_def)
qed

lemma observed_attributes_snoc:
  "observed_attributes (el_tagName e) (es @ [e]) =
     new_Set (observed_attributes (el_tagName e) es @ el_attributes e)"
  by (simp add: observed_attributes_def new_Set_append)

lemma observed_attributes_other:
  "el_tagName e \<noteq> k \<Longrightarrow> observed_attributes k (es @ [e]) = observed_attributes k es"
  by (simp add: observed_attributes_def)

lemma expected_entry_other:
  "el_tagName e \<noteq> k \<Longrightarrow> expected_entry options k (es @ [e]) = expected_entry options k es"
  by (simp add: expected_entry_def observed_attributes_other)

lemma reduce_invariant:
  "distinct (map fst (fst (foldl (reducer options) empty_object es))) \<and>
   (\<forall>k. map_of (fst (foldl (reducer options) empty_object es)) k =
      (if k \<in> el_tagName ` set es \<and> k \<noteq> ''__proto__''
       then Some (expected_entry options k es) else None))"
proof (induction es rule: rev_induct)
  case Nil
  then show ?case by (simp add: empty_object_def)
next
  case (snoc e es)
  let ?S = "foldl (reducer options) empty_object es"
  let ?t = "el_tagName e"
  have dist: "distinct (map fst (fst ?S))"
    and look: "\<And>k. map_of (fst ?S) k =
      (if k \<in> el_tagName ` set es \<and> k \<noteq> ''__proto__''
       then Some (expected_entry options k es) else None)"
    using snoc.IH by simp_all
  show ?case
  proof (cases "?t = ''__proto__''")
    case True
    then have own: "fst (foldl (reducer options) empty_object (es @ [e])) = fst ?S"
      by (simp add: reducer_def assign_def)
    have "expected_entry options k (es @ [e]) = expected_entry options k es" if "k \<noteq> ''__proto__''" for k
      using that True by (simp add: expected_entry_other)
    then show ?thesis
      unfolding own using dist look True by auto
  next
    case False
    have seen: "seen_attributes ?S ?t = observed_attributes ?t es"
      using False look [of ?t]
      by (auto simp: seen_attributes_def expected_entry_def observed_attributes_none)
    have own: "fst (foldl (reducer options) empty_object (es @ [e])) =
        AList.update ?t (expected_entry options ?t (es @ [e])) (fst ?S)"
      using False
      by (simp add: reducer_def assign_def seen expected_entry_def observed_attributes_snoc)
    have "map_of (AList.update ?t (expected_entry options ?t (es @ [e])) (fst ?S)) k =
      (if k \<in> el_tagName ` set (es @ [e]) \<and> k \<noteq> ''__proto__''
       then Some (expected_entry options k (es @ [e])) else None)" for k
      using False look [of k]
      by (cases "k = ?t") (auto simp: update_conv' expected_entry_other)
    then show ?thesis
      unfolding own using dist by (simp add: distinct_update)
  qed
qed

lemma generated_entries:
  assumes "d \<in> set (generatePlaceholderNodeExtensions es options)"
  obtains k where "k \<in> el_tagName ` set es" "k \<noteq> ''__proto__''"
    "d = snd (expected_entry options k es)" "ext_name d = k"
proof -
  let ?own = "fst (foldl (reducer options) empty_object es)"
  from assms obtain k v where kv: "(k, v) \<in> set ?own" "d = snd v"
    by (auto simp: generatePlaceholderNodeExtensions_def Object_values_def set_own_property_order)
  have "distinct (map fst ?own)" using reduce_invariant [of options es] by blast
  then have "map_of ?own k = Some v"
    using kv(1) by (rule map_of_is_SomeI)
  moreover have "map_of ?own k = (if k \<in> el_tagName ` set es \<and> k \<noteq> ''__proto__''
       then Some (expected_entry options k es) else None)"
    using reduce_invariant [of options es] by blast
  ultimately have k: "k \<in> el_tagName ` set es" "k \<noteq> ''__proto__''" "v = expected_entry options k es"
    by (auto split: if_splits)
  have "ext_name d = k"
    using kv(2) k(3) by (simp add: expected_entry_def create_placeholder_def)
  then show ?thesis using k kv(2) that by blast
qed

lemma generated_names:
  "map ext_name (generatePlaceholderNodeExtensions es options) =
     map fst (own_property_order (fst (foldl (reducer options) empty_object es)))"
proof -
  let ?own = "fst (foldl (reducer options) empty_object es)"
  have "ext_name (snd (snd kv)) = fst kv" if "kv \<in> set (own_property_order ?own)" for kv
  proof -
    have "(fst kv, snd kv) \<in> set ?own" using that by (simp add: set_own_property_order)
    moreover have "distinct (map fst ?own)" using reduce_invariant [of options es] by blast
    ultimately have "map_of ?own (fst kv) = Some (snd kv)"
      by (simp only: map_of_is_SomeI)
    moreover have "map_of ?own (fst kv) =
       (if fst kv \<in> el_tagName ` set es \<and> fst kv \<noteq> ''__proto__''
        then Some (expected_entry options (fst kv) es) else None)"
      using reduce_invariant [of options es] by blast
    ultimately have "snd kv = expected_entry options (fst kv) es"
      by (auto split: if_splits)
    then show ?thesis by (simp add: expected_entry_def create_placeholder_def)
  qed
  then show ?thesis
    by (simp add: generatePlaceholderNodeExtensions_def Object_values_def)
qed

lemma generated_distinct: "distinct (map ext_name (generatePlaceholderNodeExtensions es options))"
  unfolding generated_names
  using reduce_invariant [of options es] by (simp add: distinct_own_property_order)

lemma generated_name_set:
  "ext_name ` set (generatePlaceholderNodeExtensions es options) =
     el_tagName ` set es - {''__proto__''}"
proof -
  let ?own = "fst (foldl (reducer options) empty_object es)"
  have "ext_name ` set (generatePlaceholderNodeExtensions es options) = fst ` set ?own"
  proof -
    have "ext_name ` set (generatePlaceholderNodeExtensions es options) =
        set (map ext_name (generatePlaceholderNodeExtensions es options))"
      by simp
    also have "\<dots> = fst ` set (own_property_order ?own)"
      by (simp only: generated_names set_map)
    finally show ?thesis by (simp only: set_own_property_order)
  qed
  also have "\<dots> = dom (map_of ?own)" by (simp add: dom_map_of_conv_image_fst)
  also have "\<dots> = el_tagName ` set es - {''__proto__''}"
    using reduce_invariant [of options es] by (auto simp: dom_def split: if_splits)
  finally show ?thesis .
qed

lemma generate_same_tag_two_kinds:
  "generatePlaceholderNodeExtensions same_tag_two_kinds no_fallback = [widget_mark_extension]"
proof -
  have first: "reducer no_fallback empty_object (Element node ''widget'' [''a'']) =
      ([(''widget'', ([''a''], create_placeholder node ''widget'' [''a''] no_fallback))], None)"
    by (simp add: reducer_def assign_def seen_attributes_def new_Set_def Set_add_def
        empty_object_def)
  have second: "reducer no_fallback
      ([(''widget'', ([''a''], create_placeholder node ''widget'' [''a''] no_fallback))], None)
      (Element mark ''widget'' [''b'']) =
      ([(''widget'', ([''a'', ''b''],
          create_placeholder mark ''widget'' [''a'', ''b''] no_fallback))], None)"
    by (simp add: reducer_def assign_def seen_attributes_def new_Set_def Set_add_def)
  have order: "own_property_order [(''widget'', v)] = [(''widget'', v)]" for v :: "string list \<times> unit AnyExtension"
    by (simp add: own_property_order_def is_array_index_def)
  have attrs: "addAttributes [''a'', ''b''] = [''a'', ''b'']"
    by (simp add: addAttributes_def own_property_order_def is_array_index_def assign_def
        empty_object_def)
  have made: "create_placeholder mark ''widget'' [''a'', ''b''] no_fallback =
      AnyExtension MarkClass ''widget'' (Some MIN_SAFE_INTEGER) None None [''a'', ''b'']
        [ParseRule ''widget'' False] (Some (Tag_hole ''widget''))"
    by (simp add: create_placeholder_def attrs no_fallback_def)
  show ?thesis
    by (simp add: generatePlaceholderNodeExtensions_def Object_values_def first second order made
        same_tag_two_kinds_def widget_mark_extension_def)
qed

lemma order_custom: "own_property_order [(''custom-widget'', v)] = [(''custom-widget'', v)]"
  by (simp add: own_property_order_def is_array_index_def)

lemma order_data: "own_property_order [(''data-id'', v)] = [(''data-id'', v)]"
  by (simp add: own_property_order_def is_array_index_def)

lemma gen_custom:
  "generatePlaceholderNodeExtensions [Element node ''custom-widget'' [''data-id'']] no_fallback =
     [AnyExtension NodeClass ''custom-widget'' (Some MIN_SAFE_INTEGER) (Some ''block'')
        (Some ''inline*'') [''data-id''] [ParseRule ''custom-widget'' False]
        (Some (Tag_hole ''custom-widget''))]"
proof -
  have first: "reducer no_fallback empty_object (Element node ''custom-widget'' [''data-id'']) =
      ([(''custom-widget'', ([''data-id''],
          create_placeholder node ''custom-widget'' [''data-id''] no_fallback))], None)"
    by (simp add: reducer_def assign_def seen_attributes_def new_Set_def Set_add_def
        empty_object_def)
  have attrs: "addAttributes [''data-id''] = [''data-id'']"
    by (simp add: addAttributes_def order_data assign_def empty_object_def)
  have made: "create_placeholder node ''custom-widget'' [''data-id''] no_fallback =
      AnyExtension NodeClass ''custom-widget'' (Some MIN_SAFE_INTEGER) (Some ''block'')
        (Some ''inline*'') [''data-id''] [ParseRule ''custom-widget'' False]
        (Some (Tag_hole ''custom-widget''))"
    by (simp add: create_placeholder_def attrs no_fallback_def)
  show ?thesis
    by (simp add: generatePlaceholderNodeExtensions_def Object_values_def first order_custom made)
qed

section \<open>The claims about the placeholder extensions\<close>

text \<open>
  C4, as stated, fails: the map of \<open>generatePlaceholderNodeExtensions\<close> is keyed by the
  tag name alone. A node observation and a mark observation of the same tag name are two
  groups by kind and tag name, and they give one extension, a mark, with the attribute
  names of both.
\<close>

theorem one_group_for_two_kinds_counterexample:
  "generatePlaceholderNodeExtensions
     [Element node ''widget'' [''a''], Element mark ''widget'' [''b'']] no_fallback =
   [AnyExtension MarkClass ''widget'' (Some MIN_SAFE_INTEGER) None None [''a'', ''b'']
      [ParseRule ''widget'' False] (Some (Tag_hole ''widget''))]"
  using generate_same_tag_two_kinds
  by (simp add: same_tag_two_kinds_def widget_mark_extension_def)

text \<open>
  C4, amended: \<open>generatePlaceholderNodeExtensions\<close> groups the observations by tag name.
  No two returned extensions have the same name, and the names of the returned extensions
  are exactly the observed tag names other than \<open>__proto__\<close>. The attribute names that
  the extension of a tag name declares are exactly the attribute names, other than
  \<open>__proto__\<close>, of the observations of that tag name, of either kind: they are accumulated
  by union. The extension is a mark or a node as the last observation of its tag name says.
\<close>

theorem one_placeholder_per_tag_name:
  "distinct (map ext_name (generatePlaceholderNodeExtensions es options))
   \<and> ext_name ` set (generatePlaceholderNodeExtensions es options) =
       el_tagName ` set es - {''__proto__''}
   \<and> (\<forall>d \<in> set (generatePlaceholderNodeExtensions es options).
        set (ext_addAttributes d) =
          (\<Union>e \<in> {e \<in> set es. el_tagName e = ext_name d}. set (el_attributes e)) - {''__proto__''}
        \<and> ext_class d =
            (if el_type (last (filter (\<lambda>e. el_tagName e = ext_name d) es)) = mark
             then MarkClass else NodeClass))"
proof (intro conjI ballI)
  show "distinct (map ext_name (generatePlaceholderNodeExtensions es options))"
    by (rule generated_distinct)
next
  show "ext_name ` set (generatePlaceholderNodeExtensions es options) =
       el_tagName ` set es - {''__proto__''}"
    by (rule generated_name_set)
next
  fix d
  assume d: "d \<in> set (generatePlaceholderNodeExtensions es options)"
  from d obtain k where k: "d = snd (expected_entry options k es)" "ext_name d = k"
    by (rule generated_entries)
  have "ext_addAttributes (snd (expected_entry options k es)) =
      addAttributes (observed_attributes k es)"
    by (simp add: expected_entry_def create_placeholder_def)
  then have "ext_addAttributes d = addAttributes (observed_attributes (ext_name d) es)"
    using k by simp
  then show "set (ext_addAttributes d) =
      (\<Union>e \<in> {e \<in> set es. el_tagName e = ext_name d}. set (el_attributes e)) - {''__proto__''}"
    by (auto simp: set_addAttributes observed_attributes_def set_new_Set)
next
  fix d
  assume d: "d \<in> set (generatePlaceholderNodeExtensions es options)"
  from d obtain k where k: "d = snd (expected_entry options k es)" "ext_name d = k"
    by (rule generated_entries)
  have "ext_class (snd (expected_entry options k es)) =
      (if el_type (last (filter (\<lambda>e. el_tagName e = k) es)) = mark
       then MarkClass else NodeClass)"
    by (simp add: expected_entry_def create_placeholder_def)
  then show "ext_class d =
            (if el_type (last (filter (\<lambda>e. el_tagName e = ext_name d) es)) = mark
             then MarkClass else NodeClass)"
    using k by simp
qed

theorem one_placeholder_per_tag_name_witness:
  "widget_mark_extension \<in> set (generatePlaceholderNodeExtensions same_tag_two_kinds no_fallback)
   \<and> ext_name ` set (generatePlaceholderNodeExtensions same_tag_two_kinds no_fallback) = {''widget''}
   \<and> set (ext_addAttributes widget_mark_extension) = {''a'', ''b''}
   \<and> ext_class widget_mark_extension = MarkClass"
proof -
  have h: "widget_mark_extension \<in> set (generatePlaceholderNodeExtensions same_tag_two_kinds no_fallback)"
    by (simp add: generate_same_tag_two_kinds)
  show ?thesis
    using h one_placeholder_per_tag_name [of same_tag_two_kinds no_fallback]
    by (simp add: generate_same_tag_two_kinds widget_mark_extension_def same_tag_two_kinds_def)
qed

text \<open>
  C9: for a non-empty string in which unknown elements are found, the result of
  \<open>createPlaceholderExtensions\<close> is the caller's list without the extensions named
  \<open>collaboration\<close>, the others in their order, followed by the generated extensions. For
  JSON content the result begins with the caller's whole list.
\<close>

theorem collaboration_removed_for_html_only:
  "(s \<noteq> [] \<and> getUnknownHTMLElements env (HTML s) extensions \<noteq> [] \<longrightarrow>
      createPlaceholderExtensions (HTML s) env extensions options =
        filter (\<lambda>extension. ext_name extension \<noteq> ''collaboration'') extensions
        @ generatePlaceholderNodeExtensions
            (map (\<lambda>n. Element node (toLowerCase env (tagName n)) (getAttributeNames n))
               (getUnknownHTMLElements env (HTML s) extensions))
            options)
   \<and> prefix extensions (createPlaceholderExtensions (JSON j) env extensions options)"
  by simp

theorem collaboration_removed_for_html_only_witness:
  "''<custom-widget data-id=\"5\"></custom-widget>'' \<noteq> []
   \<and> getUnknownHTMLElements widget_environment
        (HTML ''<custom-widget data-id=\"5\"></custom-widget>'')
        [paragraph_extension, collaboration_extension, bold_extension] \<noteq> []
   \<and> createPlaceholderExtensions (HTML ''<custom-widget data-id=\"5\"></custom-widget>'')
        widget_environment [paragraph_extension, collaboration_extension, bold_extension]
        no_fallback =
      [paragraph_extension, bold_extension,
       AnyExtension NodeClass ''custom-widget'' (Some MIN_SAFE_INTEGER) (Some ''block'')
        (Some ''inline*'') [''data-id''] [ParseRule ''custom-widget'' False]
        (Some (Tag_hole ''custom-widget''))]"
proof -
  have h1: "''<custom-widget data-id=\"5\"></custom-widget>'' \<noteq> []" by simp
  have h2: "getUnknownHTMLElements widget_environment
        (HTML ''<custom-widget data-id=\"5\"></custom-widget>'')
        [paragraph_extension, collaboration_extension, bold_extension] \<noteq> []"
    by (simp add: getUnknownHTMLElements_def widget_environment_def)
  have names: "ext_name paragraph_extension \<noteq> ''collaboration''"
    "ext_name collaboration_extension = ''collaboration''"
    "ext_name bold_extension \<noteq> ''collaboration''"
    by (simp_all add: paragraph_extension_def collaboration_extension_def bold_extension_def)
  have els: "map (\<lambda>n. Element node (toLowerCase widget_environment (tagName n)) (getAttributeNames n))
      (getUnknownHTMLElements widget_environment
        (HTML ''<custom-widget data-id=\"5\"></custom-widget>'')
        [paragraph_extension, collaboration_extension, bold_extension]) =
      [Element node ''custom-widget'' [''data-id'']]"
    by (simp add: getUnknownHTMLElements_def widget_environment_def ascii_lower_def)
  show ?thesis
    using h1 h2 collaboration_removed_for_html_only [of "''<custom-widget data-id=\"5\"></custom-widget>''" widget_environment
        "[paragraph_extension, collaboration_extension, bold_extension]" no_fallback]
    by (simp only: els gen_custom names filter.simps append.simps simp_thms if_True if_False)
qed

text \<open>
  C10: for \<open>null\<close>, \<open>undefined\<close> and the empty string, \<open>isContentInvalid\<close> is false and
  \<open>createPlaceholderExtensions\<close> returns the caller's list, whatever the environment
  (schema derivation, parser) is.
\<close>

theorem falsy_content_is_valid_and_adds_nothing:
  "c \<in> {Null, Undefined, HTML []} \<Longrightarrow>
     \<not> isContentInvalid c env extensions \<and>
     createPlaceholderExtensions c env extensions options = extensions"
  by auto

theorem falsy_content_is_valid_and_adds_nothing_witness:
  "HTML [] \<in> {Null, Undefined, HTML []}
   \<and> \<not> isContentInvalid (HTML []) widget_environment
        [paragraph_extension, collaboration_extension, bold_extension]
   \<and> createPlaceholderExtensions (HTML []) widget_environment
        [paragraph_extension, collaboration_extension, bold_extension] no_fallback =
       [paragraph_extension, collaboration_extension, bold_extension]"
proof -
  have h: "HTML [] \<in> {Null, Undefined, HTML []}" by simp
  show ?thesis
    using h falsy_content_is_valid_and_adds_nothing [OF h, of widget_environment
        "[paragraph_extension, collaboration_extension, bold_extension]" no_fallback]
    by simp
qed

end
